theory Spec2Isabelle
  imports Complex_Main "HOL-Library.Multiset"
begin

section \<open>Playlist audio-feature rankings: the program\<close>

text \<open>
  A shallow embedding of \<^verbatim>\<open>playlist_audio_feature_rankings.py\<close>. The script reads the
  playlists of a user from the Spotify web API through a client object \<^verbatim>\<open>sp\<close>, averages
  nine audio descriptors over the tracks of each playlist and prints, for each descriptor,
  the playlists in descending order of their average.

  Python exceptions are values of the type \<open>error\<close>. A loop that follows cursors handed out
  by the server need not end, so the functions that contain one return an \<open>option\<close>, with
  \<open>None\<close> for a run that never returns.
\<close>

datatype error = KeyError | TypeError | ZeroDivisionError

subsection \<open>Numbers\<close>

text \<open>
  The descriptor values are Python numbers, floats as a rule. The script uses four
  operations on them: the integer literal \<^verbatim>\<open>0\<close>, \<^verbatim>\<open>+=\<close>, true division of a total by the
  integer \<^verbatim>\<open>num_tracks\<close> and the builtin \<^verbatim>\<open>round(x, 2)\<close>; \<^verbatim>\<open>sorted\<close> compares them.
  The embedding takes the four operations as a parameter, so that nothing is assumed about
  them (floating-point addition is not associative), and the order from the type class.
  The division is only ever applied to a positive count: the case \<^verbatim>\<open>num_tracks == 0\<close> is
  the \<^verbatim>\<open>ZeroDivisionError\<close> branch of \<open>average_audio_features\<close>.
\<close>

record 'v arith =
  num_zero :: 'v
  num_add :: "'v \<Rightarrow> 'v \<Rightarrow> 'v"
  num_truediv :: "'v \<Rightarrow> nat \<Rightarrow> 'v"
  num_round2 :: "'v \<Rightarrow> 'v"

text \<open>
  Exact arithmetic on rationals is one instance: \<^verbatim>\<open>round(x, 2)\<close> rounds to the nearest
  multiple of one hundredth and, of two nearest ones, to the even one.
\<close>

definition round_half_even :: "rat \<Rightarrow> int" where
  "round_half_even y =
     (let f = \<lfloor>y\<rfloor>; d = y - of_int f
      in if d < 1 / 2 then f else if 1 / 2 < d then f + 1 else if even f then f else f + 1)"

definition py_round2 :: "rat \<Rightarrow> rat" where
  "py_round2 x = of_int (round_half_even (x * 100)) / 100"

definition exact_arith :: "rat arith" where
  "exact_arith =
     \<lparr>num_zero = 0, num_add = (+), num_truediv = (\<lambda>tot n. tot / of_nat n),
      num_round2 = py_round2\<rparr>"

subsection \<open>Dictionaries\<close>

text \<open>
  A Python \<^verbatim>\<open>dict\<close> keeps its keys in insertion order, and the script depends on that
  order when it iterates and sorts. The dictionaries the script builds are association
  lists with one entry per key: \<^verbatim>\<open>d[k] = v\<close> replaces the value of a key that is present,
  in place, and appends the entry otherwise; \<open>map_of\<close> is the lookup.
\<close>

type_synonym ('k, 'v) dict = "('k \<times> 'v) list"

fun dict_set :: "'k \<Rightarrow> 'v \<Rightarrow> ('k, 'v) dict \<Rightarrow> ('k, 'v) dict" where
  "dict_set k v [] = [(k, v)]"
| "dict_set k v ((k', v') # d) =
     (if k = k' then (k, v) # d else (k', v') # dict_set k v d)"

subsection \<open>The Spotify client\<close>

text \<open>
  The responses of the web API, as far as the script reads them. A page of a paginated
  result has the fields \<^verbatim>\<open>items\<close> and \<^verbatim>\<open>next\<close> (the URL of the next page, or \<^verbatim>\<open>null\<close>); a
  playlist has \<^verbatim>\<open>name\<close>, \<^verbatim>\<open>id\<close> and \<^verbatim>\<open>collaborative\<close>; of an entry of a playlist the
  script reads \<^verbatim>\<open>track['track']['id']\<close>, which may be \<^verbatim>\<open>null\<close> (the \<^verbatim>\<open>track\<close> of an entry
  is an object, as in the interface of the specification). The audio features of a
  track are a dictionary from descriptor names to numbers, or \<^verbatim>\<open>null\<close> when the service
  has none for the track.
\<close>

record 'a page =
  items :: "'a list"
  next_url :: "string option"

record playlist =
  pl_name :: string
  pl_id :: string
  pl_collaborative :: bool

record track_item =
  track_id :: "string option"

type_synonym 'v features = "(string \<rightharpoonup> 'v) option"

text \<open>
  The client \<^verbatim>\<open>sp\<close> is the table of the server's answers. \<^verbatim>\<open>sp.next(results)\<close> fetches
  the URL \<^verbatim>\<open>results['next']\<close>; it is one method in Python and one field for each type of
  page here. The calls made are recorded in a log that the functions take and return.
  The requests themselves are taken to succeed: transport and authentication errors of
  the service are outside the embedding.
\<close>

record 'v spotify =
  current_user_playlists :: "playlist page"
  playlist_items :: "string \<Rightarrow> track_item page"
  next_playlists :: "string \<Rightarrow> playlist page"
  next_tracks :: "string \<Rightarrow> track_item page"
  audio_features :: "string list \<Rightarrow> 'v features list"

datatype api_call =
  Current_user_playlists
| Playlist_items string
| Next string
| Audio_features "string list"

text \<open>Python's truth value of \<^verbatim>\<open>None\<close> or a string: the empty string is false as well.\<close>

fun truthy :: "string option \<Rightarrow> bool" where
  "truthy None = False"
| "truthy (Some s) = (s \<noteq> [])"

subsection \<open>Pagination\<close>

text \<open>
  The loop of lines 21 to 23 and of lines 43 to 45:
  \<^verbatim>\<open>while results['next']: results = sp.next(results); playlists.extend(results['items'])\<close>.
  The arguments are the method \<^verbatim>\<open>sp.next\<close>, the current \<^verbatim>\<open>results\<close>, the items collected so
  far and the log.
\<close>

partial_function (option) drain ::
  "(string \<Rightarrow> 'a page) \<Rightarrow> 'a page \<Rightarrow> 'a list \<Rightarrow> api_call list \<Rightarrow> ('a list \<times> api_call list) option"
where
  "drain nxt results acc calls =
     (case next_url results of
        None \<Rightarrow> Some (acc, calls)
      | Some u \<Rightarrow>
          if u = [] then Some (acc, calls)
          else drain nxt (nxt u) (acc @ items (nxt u)) (calls @ [Next u]))"

declare drain.simps [code]

definition fetch_playlists ::
  "'v spotify \<Rightarrow> api_call list \<Rightarrow> (playlist list \<times> api_call list) option" where
  "fetch_playlists sp calls =
     (let results = current_user_playlists sp
      in drain (next_playlists sp) results (items results) (calls @ [Current_user_playlists]))"

text \<open>Lines 24 to 28 of \<^verbatim>\<open>get_playlists\<close>: the dictionary from names to ids.\<close>

fun resulting_playlists ::
  "bool \<Rightarrow> playlist list \<Rightarrow> (string, string) dict \<Rightarrow> (string, string) dict" where
  "resulting_playlists collab_only [] d = d"
| "resulting_playlists collab_only (item # playlists) d =
     (if pl_collaborative item \<or> \<not> collab_only
      then resulting_playlists collab_only playlists (dict_set (pl_name item) (pl_id item) d)
      else resulting_playlists collab_only playlists d)"

definition get_playlists ::
  "'v spotify \<Rightarrow> bool \<Rightarrow> api_call list \<Rightarrow> ((string, string) dict \<times> api_call list) option" where
  "get_playlists sp collab_only calls =
     (case fetch_playlists sp calls of
        None \<Rightarrow> None
      | Some (playlists, calls') \<Rightarrow> Some (resulting_playlists collab_only playlists [], calls'))"

definition get_playlist_tracks ::
  "'v spotify \<Rightarrow> string \<Rightarrow> api_call list \<Rightarrow> (track_item list \<times> api_call list) option" where
  "get_playlist_tracks sp playlist_id calls =
     (let results = playlist_items sp playlist_id
      in drain (next_tracks sp) results (items results) (calls @ [Playlist_items playlist_id]))"

subsection \<open>Batched feature lookup\<close>

text \<open>
  \<^verbatim>\<open>list(filter(None, [track['track']['id'] for track in tracks]))\<close> keeps the ids that are
  true: neither \<^verbatim>\<open>None\<close> nor the empty string.
\<close>

fun track_ids :: "track_item list \<Rightarrow> string list" where
  "track_ids [] = []"
| "track_ids (track # tracks) =
     (case track_id track of
        None \<Rightarrow> track_ids tracks
      | Some i \<Rightarrow> if truthy (Some i) then i # track_ids tracks else track_ids tracks)"

text \<open>
  The loop of lines 63 to 67. \<^verbatim>\<open>num_tracks_left\<close> is a Python integer that may end
  below zero; \<^verbatim>\<open>track_ids[start:start+100]\<close> is a slice, which never fails.
\<close>

function batch_loop ::
  "(string list \<Rightarrow> 'f list) \<Rightarrow> string list \<Rightarrow> int \<Rightarrow> nat \<Rightarrow> 'f list \<Rightarrow> api_call list
     \<Rightarrow> 'f list \<times> api_call list"
where
  "batch_loop fetch ids num_tracks_left start acc calls =
     (if 0 < num_tracks_left
      then let batch = take 100 (drop start ids)
           in batch_loop fetch ids (num_tracks_left - 100) (start + 100)
                (acc @ fetch batch) (calls @ [Audio_features batch])
      else (acc, calls))"
  by pat_completeness auto
termination
  by (relation "measure (\<lambda>(fetch, ids, num_tracks_left, start, acc, calls). nat num_tracks_left)") auto

declare batch_loop.simps [simp del]

definition get_audio_features ::
  "'v spotify \<Rightarrow> track_item list \<Rightarrow> api_call list \<Rightarrow> 'v features list \<times> api_call list" where
  "get_audio_features sp tracks calls =
     (let ids = track_ids tracks
      in batch_loop (audio_features sp) ids (int (length ids)) 0 [] calls)"

subsection \<open>Averaging\<close>

definition cumulative_audio_features :: "'v arith \<Rightarrow> (string, 'v) dict" where
  "cumulative_audio_features A =
     [(''danceability'', num_zero A), (''energy'', num_zero A), (''loudness'', num_zero A),
      (''speechiness'', num_zero A), (''acousticness'', num_zero A),
      (''instrumentalness'', num_zero A), (''liveness'', num_zero A),
      (''valence'', num_zero A), (''tempo'', num_zero A)]"

text \<open>
  The inner loop of lines 93 and 94, over the entries of the running totals in order:
  \<^verbatim>\<open>cumulative_audio_features[category] += audio_feature[category]\<close>. Subscripting \<^verbatim>\<open>None\<close>
  raises \<^verbatim>\<open>TypeError\<close>, a missing descriptor raises \<^verbatim>\<open>KeyError\<close>; either one ends the
  function, so the totals updated before it are never seen.
\<close>

fun add_feature ::
  "'v arith \<Rightarrow> 'v features \<Rightarrow> (string, 'v) dict \<Rightarrow> error + (string, 'v) dict" where
  "add_feature A audio_feature [] = Inr []"
| "add_feature A audio_feature ((category, tot) # rest) =
     (case audio_feature of
        None \<Rightarrow> Inl TypeError
      | Some f \<Rightarrow>
          (case f category of
             None \<Rightarrow> Inl KeyError
           | Some x \<Rightarrow>
               (case add_feature A audio_feature rest of
                  Inl e \<Rightarrow> Inl e
                | Inr rest' \<Rightarrow> Inr ((category, num_add A tot x) # rest'))))"

fun add_features ::
  "'v arith \<Rightarrow> 'v features list \<Rightarrow> (string, 'v) dict \<Rightarrow> error + (string, 'v) dict" where
  "add_features A [] cumulative = Inr cumulative"
| "add_features A (audio_feature # rest) cumulative =
     (case add_feature A audio_feature cumulative of
        Inl e \<Rightarrow> Inl e
      | Inr cumulative' \<Rightarrow> add_features A rest cumulative')"

text \<open>
  Line 95 to 97: with no tracks the first division is \<^verbatim>\<open>0/0\<close>, which raises
  \<^verbatim>\<open>ZeroDivisionError\<close>.
\<close>

definition average_audio_features ::
  "'v arith \<Rightarrow> 'v features list \<Rightarrow> error + (string, 'v) dict" where
  "average_audio_features A audio_features_list =
     (let num_tracks = length audio_features_list
      in case add_features A audio_features_list (cumulative_audio_features A) of
           Inl e \<Rightarrow> Inl e
         | Inr cumulative \<Rightarrow>
             if num_tracks = 0 then Inl ZeroDivisionError
             else Inr (map (\<lambda>(category, tot).
                         (category, num_round2 A (num_truediv A tot num_tracks)))
                       cumulative))"

subsection \<open>Ranking and printing\<close>

text \<open>
  \<^verbatim>\<open>sorted(xs, key=k, reverse=True)\<close> first computes the key of every element, in order, and
  fails if one of them fails; it then returns the elements in descending order of their
  keys, elements with equal keys in the order they have in \<^verbatim>\<open>xs\<close>. The builtin is
  modelled by an insertion sort with that result.
\<close>

fun insort_desc :: "('a \<Rightarrow> 'k::linorder) \<Rightarrow> 'a \<Rightarrow> 'a list \<Rightarrow> 'a list" where
  "insort_desc key x [] = [x]"
| "insort_desc key x (y # ys) =
     (if key y \<le> key x then x # y # ys else y # insort_desc key x ys)"

definition sorted_reverse :: "('a \<Rightarrow> 'k::linorder) \<Rightarrow> 'a list \<Rightarrow> 'a list" where
  "sorted_reverse key xs = foldr (insort_desc key) xs []"

text \<open>The key \<^verbatim>\<open>lambda x: (x[1][category])\<close> of every item, or the \<^verbatim>\<open>KeyError\<close>.\<close>

fun keyed ::
  "string \<Rightarrow> (string \<times> (string, 'v) dict) list
     \<Rightarrow> error + ('v \<times> string \<times> (string, 'v) dict) list" where
  "keyed category [] = Inr []"
| "keyed category (x # xs) =
     (case map_of (snd x) category of
        None \<Rightarrow> Inl KeyError
      | Some v \<Rightarrow>
          (case keyed category xs of
             Inl e \<Rightarrow> Inl e
           | Inr ks \<Rightarrow> Inr ((v, x) # ks)))"

definition sorted_playlists ::
  "string \<Rightarrow> (string, (string, 'v::linorder) dict) dict
     \<Rightarrow> error + (string \<times> (string, 'v) dict) list" where
  "sorted_playlists category playlists_audio_features =
     (case keyed category playlists_audio_features of
        Inl e \<Rightarrow> Inl e
      | Inr ks \<Rightarrow> Inr (map snd (sorted_reverse fst ks)))"

text \<open>The slice \<^verbatim>\<open>xs[:n]\<close>: a negative \<^verbatim>\<open>n\<close> counts from the end of the list.\<close>

definition slice_to :: "int \<Rightarrow> 'a list \<Rightarrow> 'a list" where
  "slice_to n xs = (if n < 0 then take (length xs - nat (- n)) xs else take (nat n) xs)"

text \<open>
  What the script prints, one value for each call of \<^verbatim>\<open>print\<close>: the header of a
  descriptor, a line \<^verbatim>\<open>name: value\<close>, or the empty line. How a number is written out is
  not modelled.
\<close>

datatype 'v line = Header string | Row string 'v | Blank

fun print_rows ::
  "string \<Rightarrow> (string \<times> (string, 'v) dict) list \<Rightarrow> 'v line list
     \<Rightarrow> 'v line list \<times> error option" where
  "print_rows category [] out = (out, None)"
| "print_rows category (playlist # top_ten) out =
     (case map_of (snd playlist) category of
        None \<Rightarrow> (out, Some KeyError)
      | Some v \<Rightarrow> print_rows category top_ten (out @ [Row (fst playlist) v]))"

text \<open>
  The loop of \<^verbatim>\<open>print_rankings\<close> over a list of descriptor names. The result is the
  output and the exception that ended the function, if one did.
\<close>

fun print_categories ::
  "string list \<Rightarrow> (string, (string, 'v::linorder) dict) dict \<Rightarrow> int \<Rightarrow> 'v line list
     \<Rightarrow> 'v line list \<times> error option" where
  "print_categories [] playlists_audio_features top_amount out = (out, None)"
| "print_categories (category # categories) playlists_audio_features top_amount out =
     (case sorted_playlists category playlists_audio_features of
        Inl e \<Rightarrow> (out @ [Header category], Some e)
      | Inr sorted_pl \<Rightarrow>
          (case print_rows category (slice_to top_amount sorted_pl) (out @ [Header category]) of
             (out', Some e) \<Rightarrow> (out', Some e)
           | (out', None) \<Rightarrow>
               print_categories categories playlists_audio_features top_amount
                 (out' @ [Blank])))"

text \<open>
  Modelled from the spec: the list \<^verbatim>\<open>audio_feature_names\<close> of the module \<^verbatim>\<open>constants\<close>,
  which the script imports and which is not among the sources. The specification fixes
  the descriptors as danceability, energy, loudness, speechiness, acousticness,
  instrumentalness, liveness, valence and tempo.
\<close>

definition audio_feature_names :: "string list" where
  "audio_feature_names =
     [''danceability'', ''energy'', ''loudness'', ''speechiness'', ''acousticness'',
      ''instrumentalness'', ''liveness'', ''valence'', ''tempo'']"

definition print_rankings ::
  "(string, (string, 'v::linorder) dict) dict \<Rightarrow> int \<Rightarrow> 'v line list \<times> error option" where
  "print_rankings playlists_audio_features top_amount =
     print_categories audio_feature_names playlists_audio_features top_amount []"

subsection \<open>The main program\<close>

text \<open>
  The loop of lines 132 to 135 over the entries of \<^verbatim>\<open>playlists\<close>. There is no
  \<^verbatim>\<open>try\<close> in the script: an exception of \<open>average_audio_features\<close> ends the loop and the
  program. The result is the dictionary of averages or that exception, and in both cases
  the log of the requests made so far.
\<close>

fun main_loop ::
  "'v arith \<Rightarrow> 'v spotify \<Rightarrow> (string, string) dict \<Rightarrow> (string, (string, 'v) dict) dict
     \<Rightarrow> api_call list \<Rightarrow> ((error + (string, (string, 'v) dict) dict) \<times> api_call list) option"
where
  "main_loop A sp [] playlist_audio_features calls = Some (Inr playlist_audio_features, calls)"
| "main_loop A sp ((playlist, playlist_id) # playlists) playlist_audio_features calls =
     (case get_playlist_tracks sp playlist_id calls of
        None \<Rightarrow> None
      | Some (tracks, calls1) \<Rightarrow>
          (case get_audio_features sp tracks calls1 of
             (audio_features_list, calls2) \<Rightarrow>
               (case average_audio_features A audio_features_list of
                  Inl e \<Rightarrow> Some (Inl e, calls2)
                | Inr average \<Rightarrow>
                    main_loop A sp playlists
                      (dict_set playlist average playlist_audio_features) calls2)))"

text \<open>
  \<open>main\<close> returns what the program has printed, the exception it ended with, if any,
  and the log of the requests it has made; \<open>None\<close> when a pagination never ends.
\<close>

definition main ::
  "'v::linorder arith \<Rightarrow> 'v spotify
     \<Rightarrow> ('v line list \<times> error option \<times> api_call list) option" where
  "main A sp =
     (case get_playlists sp False [] of
        None \<Rightarrow> None
      | Some (playlists, calls) \<Rightarrow>
          (case main_loop A sp playlists [] calls of
             None \<Rightarrow> None
           | Some (Inl e, calls') \<Rightarrow> Some ([], Some e, calls')
           | Some (Inr playlist_audio_features, calls') \<Rightarrow>
               (case print_rankings playlist_audio_features 10 of
                  (out, raised) \<Rightarrow> Some (out, raised, calls'))))"

section \<open>The vocabulary of the properties\<close>

subsection \<open>Averaging\<close>

text \<open>
  The nine keys of the dictionary literal of lines 80 to 90, a raw feature record that
  is not \<^verbatim>\<open>null\<close> and has a value for each of a list of descriptors, the value it has for
  one of them, and the mean of a list of numbers as the arithmetic \<open>A\<close> computes it: the
  sum from the left, starting at zero, divided by the count.
\<close>

definition descriptors :: "string list" where
  "descriptors =
     [''danceability'', ''energy'', ''loudness'', ''speechiness'', ''acousticness'',
      ''instrumentalness'', ''liveness'', ''valence'', ''tempo'']"

definition has_descriptors :: "string list \<Rightarrow> 'v features \<Rightarrow> bool" where
  "has_descriptors cs f = (case f of None \<Rightarrow> False | Some m \<Rightarrow> \<forall>c\<in>set cs. m c \<noteq> None)"

definition descriptor_value :: "string \<Rightarrow> 'v features \<Rightarrow> 'v" where
  "descriptor_value c f = the (the f c)"

definition mean :: "'v arith \<Rightarrow> 'v list \<Rightarrow> 'v" where
  "mean A xs = num_truediv A (foldl (num_add A) (num_zero A) xs) (length xs)"

subsection \<open>Pagination and batches\<close>

text \<open>
  A paginated result that ends: \<open>page_chain nxt p chain\<close> holds when \<open>chain\<close> lists,
  in order, the cursors and the pages that follow the first page \<open>p\<close>, each page being
  the server's answer \<open>nxt u\<close> to the cursor \<open>u\<close> of the page before it, and the last page
  has no cursor.
\<close>

fun page_chain :: "(string \<Rightarrow> 'a page) \<Rightarrow> 'a page \<Rightarrow> (string \<times> 'a page) list \<Rightarrow> bool" where
  "page_chain nxt p [] = (\<not> truthy (next_url p))"
| "page_chain nxt p ((u, q) # rest) =
     (next_url p = Some u \<and> u \<noteq> [] \<and> nxt u = q \<and> page_chain nxt q rest)"

text \<open>
  The ids of the track references whose id is not \<^verbatim>\<open>null\<close>, and the consecutive slices
  of length 100 of a list of ids: slice \<open>k\<close> is \<^verbatim>\<open>ids[100*k : 100*k + 100]\<close>, and there are
  as many slices as the length divided by 100, rounded up.
\<close>

definition non_null_ids :: "track_item list \<Rightarrow> string list" where
  "non_null_ids tracks = map the (filter (\<lambda>i. i \<noteq> None) (map track_id tracks))"

definition batches :: "string list \<Rightarrow> string list list" where
  "batches ids = map (\<lambda>k. take 100 (drop (100 * k) ids)) [0..<(length ids + 99) div 100]"

subsection \<open>Playlists and ranking\<close>

text \<open>
  The playlists that \<^verbatim>\<open>collab_only\<close> retains: the collaborative ones when it is true,
  all of them otherwise. The value by which an entry of the averages is ranked for a
  descriptor.
\<close>

definition retained :: "bool \<Rightarrow> playlist list \<Rightarrow> playlist list" where
  "retained collab_only playlists =
     (if collab_only then filter pl_collaborative playlists else playlists)"

definition ranked_value :: "string \<Rightarrow> string \<times> (string, 'v) dict \<Rightarrow> 'v" where
  "ranked_value category x = the (map_of (snd x) category)"

subsection \<open>Test data\<close>

text \<open>
  A server that answers from a table of pages, with an empty last page for a cursor or
  a playlist it does not know, and that has audio features for the tracks of a table
  and \<^verbatim>\<open>null\<close> for any other. The values of the table are binary fractions, which
  floating-point arithmetic adds and halves without error.
\<close>

definition serve :: "(string \<times> 'a page) list \<Rightarrow> string \<Rightarrow> 'a page" where
  "serve table u =
     (case map_of table u of Some p \<Rightarrow> p | None \<Rightarrow> \<lparr>items = [], next_url = None\<rparr>)"

definition features_of :: "rat list \<Rightarrow> rat features" where
  "features_of vs = Some (map_of (zip descriptors vs))"

definition feature_table :: "string \<Rightarrow> rat features" where
  "feature_table i =
     (case map_of
        [(''t1'', [1/2, 7/8, -5, 1/8, 0, 0, 1/4, 3/8, 120]),
         (''t2'', [3/4, 1, -6, 1/8, 0, 1, 1/4, 5/8, 121]),
         (''t3'', [1/4, 1/2, -9, 0, 1, 0, 1/4, 1/2, 90]),
         (''t9'', [1/4, 1/2, -9, 0, 1, 0, 1/4, 1/2])] i of
        Some vs \<Rightarrow> features_of vs
      | None \<Rightarrow> None)"

definition paged_client :: "rat spotify" where
  "paged_client =
     \<lparr>current_user_playlists =
        \<lparr>items = [\<lparr>pl_name = ''A'', pl_id = ''idA'', pl_collaborative = True\<rparr>,
                  \<lparr>pl_name = ''B'', pl_id = ''idB'', pl_collaborative = False\<rparr>],
         next_url = Some ''playlists?offset=2''\<rparr>,
      playlist_items = serve
        [(''idA'', \<lparr>items = [\<lparr>track_id = Some ''t1''\<rparr>, \<lparr>track_id = None\<rparr>],
                   next_url = Some ''idA?offset=2''\<rparr>)],
      next_playlists = serve
        [(''playlists?offset=2'',
          \<lparr>items = [\<lparr>pl_name = ''C'', pl_id = ''idC'', pl_collaborative = True\<rparr>],
           next_url = Some ''playlists?offset=3''\<rparr>),
         (''playlists?offset=3'',
          \<lparr>items = [\<lparr>pl_name = ''A'', pl_id = ''idA2'', pl_collaborative = True\<rparr>,
                    \<lparr>pl_name = ''D'', pl_id = ''idD'', pl_collaborative = False\<rparr>],
           next_url = None\<rparr>)],
      next_tracks = serve
        [(''idA?offset=2'', \<lparr>items = [\<lparr>track_id = Some ''t2''\<rparr>],
                            next_url = Some ''idA?offset=3''\<rparr>),
         (''idA?offset=3'', \<lparr>items = [\<lparr>track_id = Some ''t3''\<rparr>], next_url = None\<rparr>)],
      audio_features = map feature_table\<rparr>"

text \<open>
  Users whose playlists fit on one page: one whose first playlist has no tracks, one
  whose second playlist has a track with no tempo among its features (\<open>t9\<close> has eight
  values), and the three playlists of the example of the specification.
\<close>

definition one_page_client ::
  "playlist list \<Rightarrow> (string \<times> track_item page) list \<Rightarrow> rat spotify" where
  "one_page_client playlists track_pages =
     \<lparr>current_user_playlists = \<lparr>items = playlists, next_url = None\<rparr>,
      playlist_items = serve track_pages,
      next_playlists = serve [],
      next_tracks = serve [],
      audio_features = map feature_table\<rparr>"

definition empty_first_client :: "rat spotify" where
  "empty_first_client =
     one_page_client
       [\<lparr>pl_name = ''Empty'', pl_id = ''idE'', pl_collaborative = False\<rparr>,
        \<lparr>pl_name = ''Good'', pl_id = ''idG'', pl_collaborative = False\<rparr>]
       [(''idG'', \<lparr>items = [\<lparr>track_id = Some ''t1''\<rparr>, \<lparr>track_id = Some ''t2''\<rparr>],
                  next_url = None\<rparr>)]"

definition missing_field_client :: "rat spotify" where
  "missing_field_client =
     one_page_client
       [\<lparr>pl_name = ''Good'', pl_id = ''idG'', pl_collaborative = False\<rparr>,
        \<lparr>pl_name = ''Broken'', pl_id = ''idX'', pl_collaborative = False\<rparr>,
        \<lparr>pl_name = ''Other'', pl_id = ''idO'', pl_collaborative = True\<rparr>]
       [(''idG'', \<lparr>items = [\<lparr>track_id = Some ''t1''\<rparr>, \<lparr>track_id = Some ''t2''\<rparr>],
                  next_url = None\<rparr>),
        (''idX'', \<lparr>items = [\<lparr>track_id = Some ''t9''\<rparr>], next_url = None\<rparr>),
        (''idO'', \<lparr>items = [\<lparr>track_id = Some ''t3''\<rparr>], next_url = None\<rparr>)]"

definition abc_client :: "rat spotify" where
  "abc_client =
     one_page_client
       [\<lparr>pl_name = ''A'', pl_id = ''idA'', pl_collaborative = True\<rparr>,
        \<lparr>pl_name = ''B'', pl_id = ''idB'', pl_collaborative = False\<rparr>,
        \<lparr>pl_name = ''C'', pl_id = ''idC'', pl_collaborative = True\<rparr>]
       []"

text \<open>
  The averages of the example of the specification: \<open>X\<close> with energy 0.9, \<open>Y\<close> and \<open>Z\<close>
  with energy 0.95; the three have the same value for each of the other descriptors.
\<close>

definition xyz_averages :: "(string, (string, rat) dict) dict" where
  "xyz_averages =
     [(''X'', zip descriptors [1/2, 9/10, -5, 1/8, 0, 0, 1/4, 3/8, 120]),
      (''Y'', zip descriptors [1/2, 95/100, -5, 1/8, 0, 0, 1/4, 3/8, 120]),
      (''Z'', zip descriptors [1/2, 95/100, -5, 1/8, 0, 0, 1/4, 3/8, 120])]"

text \<open>A playlist of 251 entries, one of them without an id.\<close>

definition many_tracks :: "track_item list" where
  "many_tracks =
     replicate 120 \<lparr>track_id = Some ''t1''\<rparr> @ [\<lparr>track_id = None\<rparr>] @
     replicate 130 \<lparr>track_id = Some ''t2''\<rparr>"

section \<open>Properties\<close>

subsection \<open>Averaging\<close>

lemma keys_cumulative: "map fst (cumulative_audio_features A) = descriptors"
  by (simp add: cumulative_audio_features_def descriptors_def)

lemma cumulative_zero:
  "cumulative_audio_features A = map (\<lambda>c. (c, num_zero A)) descriptors"
  by (simp add: cumulative_audio_features_def descriptors_def)

lemma add_feature_ok:
  "has_descriptors (map fst cum) f \<Longrightarrow>
   add_feature A f cum = Inr (map (\<lambda>(c, t). (c, num_add A t (descriptor_value c f))) cum)"
  by (induction cum) (auto simp: has_descriptors_def descriptor_value_def split: option.splits)

lemma add_features_ok:
  "\<forall>f\<in>set fs. has_descriptors (map fst cum) f \<Longrightarrow>
   add_features A fs cum =
     Inr (map (\<lambda>(c, t). (c, foldl (num_add A) t (map (descriptor_value c) fs))) cum)"
proof (induction fs arbitrary: cum)
  case Nil
  then show ?case by simp
next
  case (Cons f fs)
  let ?cum = "map (\<lambda>(c, t). (c, num_add A t (descriptor_value c f))) cum"
  have m: "map fst ?cum = map fst cum"
    by (induction cum) auto
  from Cons.prems have "has_descriptors (map fst cum) f" by simp
  then have s: "add_feature A f cum = Inr ?cum"
    by (rule add_feature_ok)
  from Cons.prems have "\<forall>g\<in>set fs. has_descriptors (map fst cum) g"
    by simp
  then have "\<forall>g\<in>set fs. has_descriptors (map fst ?cum) g"
    by (simp only: m)
  from Cons.IH[OF this] s show ?case
    by (simp add: case_prod_unfold o_def)
qed

lemma foldl_add_sum: "foldl (+) z xs = z + sum_list (xs::rat list)"
  by (induction xs arbitrary: z) (simp_all add: add.assoc)

text \<open>In exact arithmetic \<open>mean\<close> is the arithmetic mean.\<close>

lemma mean_exact: "mean exact_arith xs = sum_list xs / of_nat (length xs)"
  by (simp add: mean_def exact_arith_def foldl_add_sum)

lemma has_descriptors_features_of:
  "length vs = 9 \<Longrightarrow> has_descriptors descriptors (features_of vs)"
  by (auto simp: has_descriptors_def features_of_def descriptors_def length_Suc_conv
      numeral_eq_Suc)

text \<open>
  C1. For a list of feature records that is not empty, each record with a value for
  each of the nine descriptors, \<open>average_audio_features\<close> returns a dictionary with the
  nine descriptors, in which the value of a descriptor is the mean of its values in the
  records, rounded to two places. This holds whatever the arithmetic is; in exact
  arithmetic the mean is the sum divided by the count, by \<open>mean_exact\<close>.
\<close>

theorem average_is_rounded_mean:
  assumes "audio_features_list \<noteq> []"
    and "\<forall>f\<in>set audio_features_list. has_descriptors descriptors f"
  shows "average_audio_features A audio_features_list =
           Inr (map (\<lambda>c. (c, num_round2 A
                              (mean A (map (descriptor_value c) audio_features_list))))
                  descriptors)"
proof -
  from assms(2) have "\<forall>f\<in>set audio_features_list.
      has_descriptors (map fst (cumulative_audio_features A)) f"
    by (simp only: keys_cumulative)
  then have "add_features A audio_features_list (cumulative_audio_features A) =
      Inr (map (\<lambda>(c, t). (c, foldl (num_add A) t (map (descriptor_value c) audio_features_list)))
             (cumulative_audio_features A))"
    by (rule add_features_ok)
  with assms(1) show ?thesis
    by (simp add: average_audio_features_def cumulative_zero mean_def o_def)
qed

theorem average_is_rounded_mean_witness:
  "[feature_table ''t1'', feature_table ''t2''] \<noteq> [] \<and>
   has_descriptors descriptors (feature_table ''t1'') \<and>
   has_descriptors descriptors (feature_table ''t2'') \<and>
   average_audio_features exact_arith [feature_table ''t1'', feature_table ''t2''] =
   Inr [(''danceability'', 62/100), (''energy'', 94/100), (''loudness'', -11/2),
        (''speechiness'', 12/100), (''acousticness'', 0), (''instrumentalness'', 1/2),
        (''liveness'', 1/4), (''valence'', 1/2), (''tempo'', 241/2)]"
proof -
  let ?fs = "[feature_table ''t1'', feature_table ''t2'']"
  have h1: "?fs \<noteq> []" by simp
  have d1: "has_descriptors descriptors (feature_table ''t1'')"
    and d2: "has_descriptors descriptors (feature_table ''t2'')"
    by (simp_all add: feature_table_def has_descriptors_features_of)
  then have h2: "\<forall>f\<in>set ?fs. has_descriptors descriptors f"
    by simp
  have v: "map (\<lambda>c. (c, num_round2 exact_arith
                         (mean exact_arith (map (descriptor_value c) ?fs)))) descriptors
     = [(''danceability'', 62/100), (''energy'', 94/100), (''loudness'', -11/2),
        (''speechiness'', 12/100), (''acousticness'', 0), (''instrumentalness'', 1/2),
        (''liveness'', 1/4), (''valence'', 1/2), (''tempo'', 241/2)]"
    by code_simp
  from average_is_rounded_mean [OF h1 h2, of exact_arith] h1 d1 d2 v show ?thesis
    by (simp only: simp_thms)
qed

text \<open>
  C2. Applied to the empty list, \<open>average_audio_features\<close> has no check of its own:
  the totals stay zero, the division by the count 0 raises \<^verbatim>\<open>ZeroDivisionError\<close>, and
  that exception is the outcome of the call, whatever the arithmetic.
\<close>

theorem average_empty_zero_division:
  "average_audio_features A [] = Inl ZeroDivisionError"
  by (simp add: average_audio_features_def)

theorem average_empty_counterexample:
  "average_audio_features exact_arith [] = Inl ZeroDivisionError"
  by (simp add: average_audio_features_def)

text \<open>
  C9. The descriptors that \<open>average_audio_features\<close> accumulates, the keys of its
  dictionary of totals, are the descriptors that \<open>print_rankings\<close> ranks, and they are
  the nine of the specification.
\<close>

theorem averaged_names_are_ranked_names:
  "set (map fst (cumulative_audio_features A)) = set audio_feature_names \<and>
   map fst (cumulative_audio_features A) = audio_feature_names \<and>
   set audio_feature_names =
     {''danceability'', ''energy'', ''loudness'', ''speechiness'', ''acousticness'',
      ''instrumentalness'', ''liveness'', ''valence'', ''tempo''}"
  by (simp add: cumulative_audio_features_def audio_feature_names_def)

subsection \<open>Pagination\<close>

lemma drain_chain:
  "page_chain nxt p chain \<Longrightarrow>
   drain nxt p acc calls =
     Some (acc @ concat (map (items \<circ> snd) chain), calls @ map (Next \<circ> fst) chain)"
proof (induction chain arbitrary: p acc calls)
  case Nil
  then show ?case
    by (subst drain.simps) (auto split: option.splits)
next
  case (Cons c chain)
  obtain u q where c: "c = (u, q)" by (cases c)
  from Cons.prems c have n: "next_url p = Some u" "u \<noteq> []" "nxt u = q"
    and r: "page_chain nxt q chain" by simp_all
  have "drain nxt p acc calls = drain nxt q (acc @ items q) (calls @ [Next u])"
    by (subst drain.simps) (simp add: n)
  also have "\<dots> = Some ((acc @ items q) @ concat (map (items \<circ> snd) chain),
      (calls @ [Next u]) @ map (Next \<circ> fst) chain)"
    by (rule Cons.IH [OF r])
  finally show ?case by (simp add: c comp_def)
qed

text \<open>The server answers a cursor with one page, so a chain is determined by its first page.\<close>

lemma page_chain_unique:
  "page_chain nxt p c1 \<Longrightarrow> page_chain nxt p c2 \<Longrightarrow> c1 = c2"
proof (induction c1 arbitrary: p c2)
  case Nil
  then show ?case by (cases c2) auto
next
  case (Cons a c1)
  then show ?case by (cases a; cases c2) auto
qed

lemma page_chain_suffix:
  "page_chain nxt p (pre @ (u, q) # post) \<Longrightarrow> nxt u = q \<and> page_chain nxt q post"
  by (induction pre arbitrary: p) auto

lemma page_chain_distinct: "page_chain nxt p chain \<Longrightarrow> distinct (map fst chain)"
proof (induction chain arbitrary: p)
  case Nil
  then show ?case by simp
next
  case (Cons c chain)
  obtain u q where c: "c = (u, q)" by (cases c)
  from Cons.prems c have q: "nxt u = q" and r: "page_chain nxt q chain" by simp_all
  have "u \<notin> fst ` set chain"
  proof
    assume "u \<in> fst ` set chain"
    then obtain q' where "(u, q') \<in> set chain" by auto
    then obtain pre post where s: "chain = pre @ (u, q') # post"
      by (auto simp: in_set_conv_decomp)
    with r have "nxt u = q'" "page_chain nxt q' post"
      using page_chain_suffix by blast+
    with q r have "chain = post" by (auto intro: page_chain_unique)
    with s show False by simp
  qed
  with Cons.IH [OF r] c show ?case by simp
qed

text \<open>
  C7. When the pages of the playlists, and of the entries of a playlist, form a chain
  that ends, \<open>get_playlists\<close> builds its result from, and \<open>get_playlist_tracks\<close> returns,
  the items of all the pages in the order of the chain; after the first request the log
  has one call of \<^verbatim>\<open>sp.next\<close> for each page that has a cursor, in the order of the pages, and
  no cursor is fetched twice.
\<close>

theorem pagination_concatenates:
  assumes "page_chain (next_playlists sp) (current_user_playlists sp) pchain"
    and "page_chain (next_tracks sp) (playlist_items sp playlist_id) tchain"
  shows "get_playlists sp collab_only calls =
           Some (resulting_playlists collab_only
                   (concat (map items (current_user_playlists sp # map snd pchain))) [],
                 calls @ Current_user_playlists # map Next (map fst pchain))
       \<and> get_playlist_tracks sp playlist_id calls' =
           Some (concat (map items (playlist_items sp playlist_id # map snd tchain)),
                 calls' @ Playlist_items playlist_id # map Next (map fst tchain))
       \<and> distinct (map fst pchain) \<and> distinct (map fst tchain)"
  using assms
  by (simp add: get_playlists_def fetch_playlists_def get_playlist_tracks_def Let_def
      drain_chain page_chain_distinct comp_def)

theorem pagination_concatenates_witness:
  "page_chain (next_playlists paged_client) (current_user_playlists paged_client)
     [(''playlists?offset=2'',
       \<lparr>items = [\<lparr>pl_name = ''C'', pl_id = ''idC'', pl_collaborative = True\<rparr>],
        next_url = Some ''playlists?offset=3''\<rparr>),
      (''playlists?offset=3'',
       \<lparr>items = [\<lparr>pl_name = ''A'', pl_id = ''idA2'', pl_collaborative = True\<rparr>,
                 \<lparr>pl_name = ''D'', pl_id = ''idD'', pl_collaborative = False\<rparr>],
        next_url = None\<rparr>)] \<and>
   page_chain (next_tracks paged_client) (playlist_items paged_client ''idA'')
     [(''idA?offset=2'',
       \<lparr>items = [\<lparr>track_id = Some ''t2''\<rparr>], next_url = Some ''idA?offset=3''\<rparr>),
      (''idA?offset=3'', \<lparr>items = [\<lparr>track_id = Some ''t3''\<rparr>], next_url = None\<rparr>)] \<and>
   get_playlists paged_client False [] =
     Some ([(''A'', ''idA2''), (''B'', ''idB''), (''C'', ''idC''), (''D'', ''idD'')],
           [Current_user_playlists, Next ''playlists?offset=2'', Next ''playlists?offset=3'']) \<and>
   get_playlist_tracks paged_client ''idA'' [] =
     Some ([\<lparr>track_id = Some ''t1''\<rparr>, \<lparr>track_id = None\<rparr>, \<lparr>track_id = Some ''t2''\<rparr>,
            \<lparr>track_id = Some ''t3''\<rparr>],
           [Playlist_items ''idA'', Next ''idA?offset=2'', Next ''idA?offset=3''])"
proof -
  let ?pchain = "[(''playlists?offset=2'',
       \<lparr>items = [\<lparr>pl_name = ''C'', pl_id = ''idC'', pl_collaborative = True\<rparr>],
        next_url = Some ''playlists?offset=3''\<rparr>),
      (''playlists?offset=3'',
       \<lparr>items = [\<lparr>pl_name = ''A'', pl_id = ''idA2'', pl_collaborative = True\<rparr>,
                 \<lparr>pl_name = ''D'', pl_id = ''idD'', pl_collaborative = False\<rparr>],
        next_url = None\<rparr>)]"
  let ?tchain = "[(''idA?offset=2'',
       \<lparr>items = [\<lparr>track_id = Some ''t2''\<rparr>], next_url = Some ''idA?offset=3''\<rparr>),
      (''idA?offset=3'', \<lparr>items = [\<lparr>track_id = Some ''t3''\<rparr>], next_url = None\<rparr>)]"
  have p: "page_chain (next_playlists paged_client) (current_user_playlists paged_client) ?pchain"
    by (simp add: paged_client_def serve_def)
  have t: "page_chain (next_tracks paged_client) (playlist_items paged_client ''idA'') ?tchain"
    by (simp add: paged_client_def serve_def)
  have i: "current_user_playlists paged_client =
      \<lparr>items = [\<lparr>pl_name = ''A'', pl_id = ''idA'', pl_collaborative = True\<rparr>,
                \<lparr>pl_name = ''B'', pl_id = ''idB'', pl_collaborative = False\<rparr>],
       next_url = Some ''playlists?offset=2''\<rparr>"
    "playlist_items paged_client ''idA'' =
      \<lparr>items = [\<lparr>track_id = Some ''t1''\<rparr>, \<lparr>track_id = None\<rparr>],
       next_url = Some ''idA?offset=2''\<rparr>"
    by (simp_all add: paged_client_def serve_def)
  from pagination_concatenates [OF p t, of False "[]" "[]"] p t show ?thesis
    by (simp add: i)
qed

subsection \<open>Batched feature lookup\<close>

lemma batch_loop_eq:
  "batch_loop fetch ids n start acc calls =
     (acc @ concat (map (\<lambda>k. fetch (take 100 (drop (start + 100 * k) ids)))
                      [0..<nat ((n + 99) div 100)]),
      calls @ map (\<lambda>k. Audio_features (take 100 (drop (start + 100 * k) ids)))
                [0..<nat ((n + 99) div 100)])"
proof (induction fetch ids n start acc calls rule: batch_loop.induct)
  case (1 fetch ids n start acc calls)
  show ?case
  proof (cases "0 < n")
    case True
    then have k: "nat ((n + 99) div 100) = Suc (nat ((n - 100 + 99) div 100))"
      by linarith
    have u: "[0..<Suc m] = 0 # map Suc [0..<m]" for m
      by (simp add: upt_conv_Cons map_Suc_upt del: upt_Suc)
    from True "1.IH" [OF True refl] show ?thesis
      by (subst batch_loop.simps) (simp add: k u o_def add.assoc Let_def del: upt_Suc)
  next
    case False
    then have "nat ((n + 99) div 100) = 0" by linarith
    with False show ?thesis by (subst batch_loop.simps) simp
  qed
qed

lemma concat_slices: "concat (map (\<lambda>k. take n (drop (n * k) xs)) [0..<m]) = take (n * m) xs"
proof (induction m)
  case 0
  then show ?case by simp
next
  case (Suc m)
  have "take (n * m + n) xs = take (n * m) xs @ take n (drop (n * m) xs)"
    by (simp add: take_add)
  with Suc show ?case by (simp add: add.commute)
qed

lemma concat_batches: "concat (batches ids) = ids"
proof -
  have "length ids \<le> 100 * ((length ids + 99) div 100)" by linarith
  then show ?thesis by (simp add: batches_def concat_slices)
qed

lemma batches_sizes: "b \<in> set (batches ids) \<Longrightarrow> b \<noteq> [] \<and> length b \<le> 100"
proof -
  assume "b \<in> set (batches ids)"
  then obtain k where k: "k < (length ids + 99) div 100"
    and b: "b = take 100 (drop (100 * k) ids)"
    by (auto simp: batches_def)
  from k have "100 * k < length ids" by linarith
  with b show ?thesis by simp
qed

lemma track_ids_non_null:
  "\<forall>t\<in>set tracks. track_id t \<noteq> Some [] \<Longrightarrow> track_ids tracks = non_null_ids tracks"
  by (induction tracks) (auto simp: non_null_ids_def split: option.splits)

lemma track_ids_all_null: "\<forall>t\<in>set tracks. track_id t = None \<Longrightarrow> track_ids tracks = []"
  by (induction tracks) auto

lemma get_audio_features_batches:
  "get_audio_features sp tracks calls =
     (concat (map (audio_features sp) (batches (track_ids tracks))),
      calls @ map Audio_features (batches (track_ids tracks)))"
proof -
  have "nat ((int (length ids) + 99) div 100) = (length ids + 99) div 100"
    for ids :: "string list"
    by linarith
  then show ?thesis
    by (simp add: get_audio_features_def Let_def batch_loop_eq batches_def o_def)
qed

text \<open>
  C6. When no track reference has the empty string as its id,
  \<open>get_audio_features\<close> makes one call of \<^verbatim>\<open>sp.audio_features\<close> for each batch of the ids
  that are not \<^verbatim>\<open>null\<close>, in order, and returns the answers one after the other. The
  batches are consecutive slices of the ids, each with at least one and at most 100 ids,
  and there are as many as the number of ids divided by 100, rounded up.
\<close>

theorem features_fetched_in_batches:
  assumes "\<forall>t\<in>set tracks. track_id t \<noteq> Some []"
  shows "get_audio_features sp tracks calls =
           (concat (map (audio_features sp) (batches (non_null_ids tracks))),
            calls @ map Audio_features (batches (non_null_ids tracks)))
       \<and> concat (batches (non_null_ids tracks)) = non_null_ids tracks
       \<and> (\<forall>b\<in>set (batches (non_null_ids tracks)). b \<noteq> [] \<and> length b \<le> 100)
       \<and> length (batches (non_null_ids tracks)) = (length (non_null_ids tracks) + 99) div 100"
proof -
  from assms have "track_ids tracks = non_null_ids tracks"
    by (rule track_ids_non_null)
  then have "get_audio_features sp tracks calls =
           (concat (map (audio_features sp) (batches (non_null_ids tracks))),
            calls @ map Audio_features (batches (non_null_ids tracks)))"
    by (simp add: get_audio_features_batches)
  moreover have "concat (batches (non_null_ids tracks)) = non_null_ids tracks"
    by (rule concat_batches)
  moreover have "\<forall>b\<in>set (batches (non_null_ids tracks)). b \<noteq> [] \<and> length b \<le> 100"
    using batches_sizes by blast
  moreover have "length (batches (non_null_ids tracks)) = (length (non_null_ids tracks) + 99) div 100"
    by (simp add: batches_def)
  ultimately show ?thesis by blast
qed

lemma many_tracks_ids: "non_null_ids many_tracks = replicate 120 ''t1'' @ replicate 130 ''t2''"
  by (simp add: many_tracks_def non_null_ids_def)

lemma many_tracks_batches:
  "batches (replicate 120 ''t1'' @ replicate 130 ''t2'') =
     [replicate 100 ''t1'', replicate 20 ''t1'' @ replicate 80 ''t2'', replicate 50 ''t2'']"
proof -
  have u: "[0..<3] = [0, 1, 2::nat]"
    by (simp add: upt_conv_Cons)
  show ?thesis
    by (simp add: batches_def u)
qed

theorem features_fetched_in_batches_witness:
  "track_id \<lparr>track_id = Some ''t1''\<rparr> \<noteq> Some [] \<and>
   track_id \<lparr>track_id = None\<rparr> \<noteq> Some [] \<and>
   track_id \<lparr>track_id = Some ''t2''\<rparr> \<noteq> Some [] \<and>
   length (non_null_ids many_tracks) = 250 \<and>
   snd (get_audio_features paged_client many_tracks []) =
     [Audio_features (replicate 100 ''t1''),
      Audio_features (replicate 20 ''t1'' @ replicate 80 ''t2''),
      Audio_features (replicate 50 ''t2'')] \<and>
   fst (get_audio_features paged_client many_tracks []) =
     replicate 120 (feature_table ''t1'') @ replicate 130 (feature_table ''t2'')"
proof -
  have h: "\<forall>t\<in>set many_tracks. track_id t \<noteq> Some []"
    by (auto simp: many_tracks_def)
  have a: "audio_features paged_client = map feature_table"
    by (simp add: paged_client_def)
  have r: "replicate 120 x = replicate 100 x @ replicate 20 x"
    "replicate 130 y = replicate 80 y @ replicate 50 y" for x y :: "rat features"
    by (simp_all flip: replicate_add)
  from features_fetched_in_batches [OF h, of paged_client "[]"] show ?thesis
    by (simp add: many_tracks_ids many_tracks_batches a r)
qed

text \<open>
  C10. When every track reference has the id \<^verbatim>\<open>null\<close>, and so for the empty list,
  \<open>get_audio_features\<close> makes no call and returns the empty list.
\<close>

theorem no_ids_no_calls:
  assumes "\<forall>t\<in>set tracks. track_id t = None"
  shows "get_audio_features sp tracks calls = ([], calls)"
  using assms
  by (simp add: get_audio_features_batches track_ids_all_null batches_def)

theorem no_ids_no_calls_witness:
  "track_id \<lparr>track_id = None\<rparr> = None \<and>
   get_audio_features paged_client [\<lparr>track_id = None\<rparr>, \<lparr>track_id = None\<rparr>] [] = ([], []) \<and>
   get_audio_features paged_client [] [] = ([], [])"
  using no_ids_no_calls [of "[\<lparr>track_id = None\<rparr>, \<lparr>track_id = None\<rparr>]" paged_client "[]"]
    no_ids_no_calls [of "[]" paged_client "[]"]
  by simp

subsection \<open>The dictionary of playlists\<close>

lemma map_of_dict_set: "map_of (dict_set k v d) = (map_of d)(k \<mapsto> v)"
  by (induction d) (auto simp: fun_eq_iff)

lemma keys_dict_set:
  "map fst (dict_set k v d) = (if k \<in> set (map fst d) then map fst d else map fst d @ [k])"
  by (induction k v d rule: dict_set.induct) auto

lemma keys_set_dict_set: "fst ` set (dict_set k v d) = insert k (fst ` set d)"
proof -
  have "set (map fst (dict_set k v d)) = insert k (set (map fst d))"
    by (subst keys_dict_set) auto
  then show ?thesis by simp
qed

lemma distinct_dict_set: "distinct (map fst d) \<Longrightarrow> distinct (map fst (dict_set k v d))"
  by (simp add: keys_dict_set)

lemma dict_set_new: "k \<notin> set (map fst d) \<Longrightarrow> dict_set k v d = d @ [(k, v)]"
  by (induction k v d rule: dict_set.induct) auto

lemma resulting_keys:
  "set (map fst (resulting_playlists co ps d)) =
     set (map fst d) \<union> set (map pl_name (retained co ps))"
  by (cases co; induction ps arbitrary: d) (auto simp: retained_def keys_set_dict_set)

lemma resulting_distinct:
  "distinct (map fst d) \<Longrightarrow> distinct (map fst (resulting_playlists co ps d))"
  by (cases co; induction ps arbitrary: d) (auto simp: distinct_dict_set)

lemma retained_Cons:
  "retained co (p # ps) =
     (if pl_collaborative p \<or> \<not> co then p # retained co ps else retained co ps)"
  by (simp add: retained_def)

lemma retained_append: "retained co (ps @ qs) = retained co ps @ retained co qs"
  by (simp add: retained_def)

lemma resulting_lookup:
  "map_of (resulting_playlists co ps d) n =
     (case filter (\<lambda>p. pl_name p = n) (retained co ps) of
        [] \<Rightarrow> map_of d n
      | q # qs \<Rightarrow> Some (pl_id (last (q # qs))))"
proof (induction ps arbitrary: d)
  case Nil
  then show ?case by (simp add: retained_def)
next
  case (Cons p ps)
  show ?case
  proof (cases "pl_collaborative p \<or> \<not> co")
    case True
    then have "map_of (resulting_playlists co (p # ps) d) n =
        map_of (resulting_playlists co ps (dict_set (pl_name p) (pl_id p) d)) n"
      by simp
    also have "\<dots> = (case filter (\<lambda>p. pl_name p = n) (retained co ps) of
        [] \<Rightarrow> map_of (dict_set (pl_name p) (pl_id p) d) n
      | q # qs \<Rightarrow> Some (pl_id (last (q # qs))))"
      by (rule Cons.IH)
    also have "\<dots> = (case filter (\<lambda>p. pl_name p = n) (retained co (p # ps)) of
        [] \<Rightarrow> map_of d n
      | q # qs \<Rightarrow> Some (pl_id (last (q # qs))))"
      using True by (simp add: retained_Cons map_of_dict_set split: list.splits)
    finally show ?thesis .
  next
    case False
    then have "map_of (resulting_playlists co (p # ps) d) n =
        map_of (resulting_playlists co ps d) n"
      by simp
    also have "\<dots> = (case filter (\<lambda>p. pl_name p = n) (retained co ps) of
        [] \<Rightarrow> map_of d n
      | q # qs \<Rightarrow> Some (pl_id (last (q # qs))))"
      by (rule Cons.IH)
    also have "\<dots> = (case filter (\<lambda>p. pl_name p = n) (retained co (p # ps)) of
        [] \<Rightarrow> map_of d n
      | q # qs \<Rightarrow> Some (pl_id (last (q # qs))))"
      using False by (simp only: retained_Cons if_False)
    finally show ?thesis .
  qed
qed

lemma resulting_entries:
  assumes "(n, i) \<in> set (resulting_playlists co ps [])"
  shows "\<exists>p\<in>set (retained co ps). pl_name p = n \<and> pl_id p = i"
proof -
  have "distinct (map fst (resulting_playlists co ps []))"
    by (simp add: resulting_distinct)
  with assms have l: "map_of (resulting_playlists co ps []) n = Some i"
    by simp
  let ?qs = "filter (\<lambda>p. pl_name p = n) (retained co ps)"
  from l have ne: "?qs \<noteq> []" and i: "pl_id (last ?qs) = i"
    by (auto simp: resulting_lookup split: list.splits)
  from ne have "last ?qs \<in> set ?qs" by (rule last_in_set)
  with i show ?thesis by auto
qed

lemma resulting_exact:
  "distinct (map fst d @ map pl_name (retained co ps)) \<Longrightarrow>
   resulting_playlists co ps d = d @ map (\<lambda>p. (pl_name p, pl_id p)) (retained co ps)"
proof (induction ps arbitrary: d)
  case Nil
  then show ?case by (simp add: retained_def)
next
  case (Cons p ps)
  show ?case
  proof (cases "pl_collaborative p \<or> \<not> co")
    case True
    then have r: "retained co (p # ps) = p # retained co ps"
      by (simp only: retained_Cons if_True)
    from Cons.prems have new: "pl_name p \<notin> set (map fst d)"
      unfolding r by auto
    then have s: "dict_set (pl_name p) (pl_id p) d = d @ [(pl_name p, pl_id p)]"
      by (rule dict_set_new)
    from Cons.prems
    have "distinct (map fst (d @ [(pl_name p, pl_id p)]) @ map pl_name (retained co ps))"
      unfolding r by auto
    then have "resulting_playlists co ps (d @ [(pl_name p, pl_id p)]) =
        (d @ [(pl_name p, pl_id p)]) @ map (\<lambda>p. (pl_name p, pl_id p)) (retained co ps)"
      by (rule Cons.IH)
    with True s show ?thesis
      unfolding r by simp
  next
    case False
    then have r: "retained co (p # ps) = retained co ps"
      by (simp only: retained_Cons if_False)
    from Cons.prems have "distinct (map fst d @ map pl_name (retained co ps))"
      unfolding r .
    then have "resulting_playlists co ps d =
        d @ map (\<lambda>p. (pl_name p, pl_id p)) (retained co ps)"
      by (rule Cons.IH)
    with False show ?thesis
      unfolding r by simp
  qed
qed

text \<open>
  C4. From the playlists fetched, \<open>get_playlists\<close> builds a dictionary with one entry
  for each name of a retained playlist, the collaborative ones when \<^verbatim>\<open>collab_only\<close> is true
  and all of them otherwise; every entry maps the name of a retained playlist to its id;
  and when the retained playlists have different names the dictionary has exactly their
  entries, in the order fetched.
\<close>

theorem get_playlists_retains:
  assumes "fetch_playlists sp calls = Some (playlists, calls')"
  shows "get_playlists sp collab_only calls =
           Some (resulting_playlists collab_only playlists [], calls')
       \<and> set (map fst (resulting_playlists collab_only playlists [])) =
           set (map pl_name (retained collab_only playlists))
       \<and> distinct (map fst (resulting_playlists collab_only playlists []))
       \<and> (\<forall>e\<in>set (resulting_playlists collab_only playlists []).
             \<exists>p\<in>set (retained collab_only playlists). e = (pl_name p, pl_id p))
       \<and> (distinct (map pl_name (retained collab_only playlists)) \<longrightarrow>
             resulting_playlists collab_only playlists [] =
               map (\<lambda>p. (pl_name p, pl_id p)) (retained collab_only playlists))"
proof -
  have "get_playlists sp collab_only calls =
           Some (resulting_playlists collab_only playlists [], calls')"
    using assms by (simp add: get_playlists_def)
  moreover have "set (map fst (resulting_playlists collab_only playlists [])) =
           set (map pl_name (retained collab_only playlists))"
    using resulting_keys [of collab_only playlists "[]"] by simp
  moreover have "distinct (map fst (resulting_playlists collab_only playlists []))"
    by (simp add: resulting_distinct)
  moreover have "\<forall>e\<in>set (resulting_playlists collab_only playlists []).
             \<exists>p\<in>set (retained collab_only playlists). e = (pl_name p, pl_id p)"
    using resulting_entries by fastforce
  moreover have "distinct (map pl_name (retained collab_only playlists)) \<longrightarrow>
             resulting_playlists collab_only playlists [] =
               map (\<lambda>p. (pl_name p, pl_id p)) (retained collab_only playlists)"
    using resulting_exact [of "[]" collab_only playlists] by simp
  ultimately show ?thesis by blast
qed

theorem get_playlists_retains_witness:
  "fetch_playlists abc_client [] =
     Some ([\<lparr>pl_name = ''A'', pl_id = ''idA'', pl_collaborative = True\<rparr>,
            \<lparr>pl_name = ''B'', pl_id = ''idB'', pl_collaborative = False\<rparr>,
            \<lparr>pl_name = ''C'', pl_id = ''idC'', pl_collaborative = True\<rparr>],
           [Current_user_playlists]) \<and>
   get_playlists abc_client True [] =
     Some ([(''A'', ''idA''), (''C'', ''idC'')], [Current_user_playlists]) \<and>
   get_playlists abc_client False [] =
     Some ([(''A'', ''idA''), (''B'', ''idB''), (''C'', ''idC'')], [Current_user_playlists])"
proof -
  let ?abc = "[\<lparr>pl_name = ''A'', pl_id = ''idA'', pl_collaborative = True\<rparr>,
            \<lparr>pl_name = ''B'', pl_id = ''idB'', pl_collaborative = False\<rparr>,
            \<lparr>pl_name = ''C'', pl_id = ''idC'', pl_collaborative = True\<rparr>]"
  have f: "fetch_playlists abc_client [] = Some (?abc, [Current_user_playlists])"
    by code_simp
  have t: "distinct (map pl_name (retained True ?abc))"
    and u: "distinct (map pl_name (retained False ?abc))"
    by (simp_all add: retained_def)
  from get_playlists_retains [OF f, of True] get_playlists_retains [OF f, of False] t u f
  show ?thesis
    by (simp add: retained_def)
qed

text \<open>
  C5. When a retained playlist is followed by no retained playlist of the same name,
  the dictionary of \<open>get_playlists\<close> maps its name to its id, whatever playlists of that
  name come before it: the latest one wins.
\<close>

theorem get_playlists_last_wins:
  assumes "fetch_playlists sp calls = Some (earlier @ p # later, calls')"
    and "pl_collaborative p \<or> \<not> collab_only"
    and "\<forall>q\<in>set later. (pl_collaborative q \<or> \<not> collab_only) \<longrightarrow> pl_name q \<noteq> pl_name p"
  shows "get_playlists sp collab_only calls =
           Some (resulting_playlists collab_only (earlier @ p # later) [], calls')
       \<and> map_of (resulting_playlists collab_only (earlier @ p # later) []) (pl_name p) =
           Some (pl_id p)"
proof -
  let ?f = "filter (\<lambda>q. pl_name q = pl_name p)"
  from assms(3) have "?f (retained collab_only later) = []"
    by (auto simp: retained_def filter_empty_conv)
  with assms(2)
  have "?f (retained collab_only (earlier @ p # later)) = ?f (retained collab_only earlier) @ [p]"
    by (simp add: retained_append retained_Cons)
  moreover have "(case qs @ [p] of [] \<Rightarrow> z | q # qs' \<Rightarrow> Some (pl_id (last (q # qs')))) =
      Some (pl_id p)" for qs z
    by (cases qs) simp_all
  ultimately
  have "map_of (resulting_playlists collab_only (earlier @ p # later) []) (pl_name p) =
           Some (pl_id p)"
    by (simp add: resulting_lookup)
  with assms(1) show ?thesis by (simp add: get_playlists_def)
qed

theorem get_playlists_last_wins_witness:
  "fetch_playlists paged_client [] =
     Some ([\<lparr>pl_name = ''A'', pl_id = ''idA'', pl_collaborative = True\<rparr>,
            \<lparr>pl_name = ''B'', pl_id = ''idB'', pl_collaborative = False\<rparr>,
            \<lparr>pl_name = ''C'', pl_id = ''idC'', pl_collaborative = True\<rparr>] @
           \<lparr>pl_name = ''A'', pl_id = ''idA2'', pl_collaborative = True\<rparr> #
           [\<lparr>pl_name = ''D'', pl_id = ''idD'', pl_collaborative = False\<rparr>],
           [Current_user_playlists, Next ''playlists?offset=2'', Next ''playlists?offset=3'']) \<and>
   pl_collaborative \<lparr>pl_name = ''A'', pl_id = ''idA2'', pl_collaborative = True\<rparr> \<and>
   pl_name \<lparr>pl_name = ''D'', pl_id = ''idD'', pl_collaborative = False\<rparr> \<noteq> ''A'' \<and>
   get_playlists paged_client True [] =
     Some ([(''A'', ''idA2''), (''C'', ''idC'')],
           [Current_user_playlists, Next ''playlists?offset=2'', Next ''playlists?offset=3'']) \<and>
   map_of [(''A'', ''idA2''), (''C'', ''idC'')] ''A'' = Some ''idA2''"
proof -
  let ?earlier = "[\<lparr>pl_name = ''A'', pl_id = ''idA'', pl_collaborative = True\<rparr>,
            \<lparr>pl_name = ''B'', pl_id = ''idB'', pl_collaborative = False\<rparr>,
            \<lparr>pl_name = ''C'', pl_id = ''idC'', pl_collaborative = True\<rparr>]"
  let ?p = "\<lparr>pl_name = ''A'', pl_id = ''idA2'', pl_collaborative = True\<rparr>"
  let ?later = "[\<lparr>pl_name = ''D'', pl_id = ''idD'', pl_collaborative = False\<rparr>]"
  have f: "fetch_playlists paged_client [] =
     Some (?earlier @ ?p # ?later,
           [Current_user_playlists, Next ''playlists?offset=2'', Next ''playlists?offset=3''])"
    by code_simp
  have k: "pl_collaborative ?p \<or> \<not> True"
    by simp
  have l: "\<forall>q\<in>set ?later. (pl_collaborative q \<or> \<not> True) \<longrightarrow> pl_name q \<noteq> pl_name ?p"
    by simp
  from get_playlists_last_wins [OF f k l] f show ?thesis
    by simp
qed

subsection \<open>Ranking\<close>

lemma set_insort_desc: "set (insort_desc key x xs) = insert x (set xs)"
  by (induction xs) auto

lemma mset_insort_desc: "mset (insort_desc key x xs) = add_mset x (mset xs)"
  by (induction xs) auto

lemma sorted_insort_desc:
  "sorted_wrt (\<lambda>a b. key b \<le> key a) xs \<Longrightarrow>
   sorted_wrt (\<lambda>a b. key b \<le> key a) (insort_desc key x xs)"
  by (induction xs) (auto simp: set_insort_desc)

lemma filter_insort_desc:
  "sorted_wrt (\<lambda>a b. key b \<le> key a) xs \<Longrightarrow>
   filter (\<lambda>y. key y = k) (insort_desc key x xs) =
     (if key x = k then x # filter (\<lambda>y. key y = k) xs else filter (\<lambda>y. key y = k) xs)"
  by (induction xs) auto

lemma mset_sorted_reverse: "mset (sorted_reverse key xs) = mset xs"
  by (induction xs) (simp_all add: sorted_reverse_def mset_insort_desc)

lemma set_sorted_reverse: "set (sorted_reverse key xs) = set xs"
  by (induction xs) (simp_all add: sorted_reverse_def set_insort_desc)

lemma sorted_sorted_reverse: "sorted_wrt (\<lambda>a b. key b \<le> key a) (sorted_reverse key xs)"
  by (induction xs) (simp_all add: sorted_reverse_def sorted_insort_desc)

lemma stable_sorted_reverse:
  "filter (\<lambda>y. key y = k) (sorted_reverse key xs) = filter (\<lambda>y. key y = k) xs"
proof (induction xs)
  case Nil
  then show ?case by (simp add: sorted_reverse_def)
next
  case (Cons x xs)
  have "sorted_reverse key (x # xs) = insort_desc key x (sorted_reverse key xs)"
    by (simp add: sorted_reverse_def)
  with Cons show ?case
    by (simp add: filter_insort_desc sorted_sorted_reverse)
qed

lemma insort_desc_decorated:
  "insort_desc fst (v x, x) (map (\<lambda>y. (v y, y)) xs) = map (\<lambda>y. (v y, y)) (insort_desc v x xs)"
  by (induction xs) auto

lemma sorted_reverse_decorated:
  "sorted_reverse fst (map (\<lambda>y. (v y, y)) xs) = map (\<lambda>y. (v y, y)) (sorted_reverse v xs)"
  by (induction xs) (simp_all add: sorted_reverse_def insort_desc_decorated)

lemma keyed_ok:
  "\<forall>x\<in>set xs. map_of (snd x) c \<noteq> None \<Longrightarrow>
   keyed c xs = Inr (map (\<lambda>x. (ranked_value c x, x)) xs)"
  by (induction xs) (auto simp: ranked_value_def)

lemma sorted_playlists_ok:
  "\<forall>x\<in>set xs. map_of (snd x) c \<noteq> None \<Longrightarrow>
   sorted_playlists c xs = Inr (sorted_reverse (ranked_value c) xs)"
  by (simp add: sorted_playlists_def keyed_ok sorted_reverse_decorated o_def)

lemma print_rows_ok:
  "\<forall>x\<in>set rows. map_of (snd x) c \<noteq> None \<Longrightarrow>
   print_rows c rows out = (out @ map (\<lambda>x. Row (fst x) (ranked_value c x)) rows, None)"
  by (induction rows arbitrary: out) (auto simp: ranked_value_def)

lemma set_slice_to: "set (slice_to n xs) \<subseteq> set xs"
  by (auto simp: slice_to_def dest: in_set_takeD)

text \<open>
  The output of the loop of \<open>print_rankings\<close> over any list of descriptors that every
  playlist has: one block for each descriptor, in the order of the list.
\<close>

lemma print_categories_blocks:
  "\<forall>x\<in>set averages. \<forall>c\<in>set categories. map_of (snd x) c \<noteq> None \<Longrightarrow>
   print_categories categories averages top_amount out =
     (out @ concat (map (\<lambda>category. Header category #
         map (\<lambda>x. Row (fst x) (ranked_value category x))
           (slice_to top_amount (sorted_reverse (ranked_value category) averages)) @ [Blank])
         categories), None)"
proof (induction categories arbitrary: out)
  case Nil
  then show ?case by simp
next
  case (Cons category categories)
  let ?r = "sorted_reverse (ranked_value category) averages"
  from Cons.prems have h: "\<forall>x\<in>set averages. map_of (snd x) category \<noteq> None"
    by simp
  then have s: "sorted_playlists category averages = Inr ?r"
    by (rule sorted_playlists_ok)
  have "set (slice_to top_amount ?r) \<subseteq> set averages"
    using set_slice_to [of top_amount ?r] by (simp only: set_sorted_reverse)
  with h have "\<forall>x\<in>set (slice_to top_amount ?r). map_of (snd x) category \<noteq> None"
    by (meson subsetD)
  then have r: "print_rows category (slice_to top_amount ?r) (out @ [Header category]) =
      ((out @ [Header category]) @
        map (\<lambda>x. Row (fst x) (ranked_value category x)) (slice_to top_amount ?r), None)"
    by (rule print_rows_ok)
  from Cons.prems have "\<forall>x\<in>set averages. \<forall>c\<in>set categories. map_of (snd x) c \<noteq> None"
    by simp
  from Cons.IH [OF this] s r show ?case
    by simp
qed

text \<open>
  C8. When every playlist has a value for each descriptor of \<^verbatim>\<open>audio_feature_names\<close>,
  as every dictionary of averages has, then for each of these descriptors the list that
  \<open>print_rankings\<close> sorts has the entries of the averages, in descending order of their
  value for the descriptor, the entries with the same value in the order they have in
  the averages; and \<open>print_rankings\<close> prints, for each descriptor in turn, its header,
  the first \<^verbatim>\<open>top_amount\<close> entries of that list in that order, and an empty line.
\<close>

theorem ranking_descending_stable:
  assumes "\<forall>x\<in>set averages. \<forall>c\<in>set audio_feature_names. map_of (snd x) c \<noteq> None"
  shows "\<exists>ranking.
           (\<forall>category\<in>set audio_feature_names.
               sorted_playlists category averages = Inr (ranking category)
             \<and> mset (ranking category) = mset averages
             \<and> sorted_wrt (\<lambda>a b. ranked_value category b \<le> ranked_value category a)
                 (ranking category)
             \<and> (\<forall>v. filter (\<lambda>x. ranked_value category x = v) (ranking category) =
                     filter (\<lambda>x. ranked_value category x = v) averages))
         \<and> print_rankings averages top_amount =
             (concat (map (\<lambda>category. Header category #
                 map (\<lambda>x. Row (fst x) (ranked_value category x))
                   (slice_to top_amount (ranking category)) @ [Blank])
                 audio_feature_names), None)"
proof -
  let ?ranking = "\<lambda>category. sorted_reverse (ranked_value category) averages"
  have "\<forall>category\<in>set audio_feature_names.
               sorted_playlists category averages = Inr (?ranking category)
             \<and> mset (?ranking category) = mset averages
             \<and> sorted_wrt (\<lambda>a b. ranked_value category b \<le> ranked_value category a)
                 (?ranking category)
             \<and> (\<forall>v. filter (\<lambda>x. ranked_value category x = v) (?ranking category) =
                     filter (\<lambda>x. ranked_value category x = v) averages)"
  proof
    fix category
    assume "category \<in> set audio_feature_names"
    with assms have "\<forall>x\<in>set averages. map_of (snd x) category \<noteq> None"
      by blast
    then have "sorted_playlists category averages = Inr (?ranking category)"
      by (rule sorted_playlists_ok)
    then show "sorted_playlists category averages = Inr (?ranking category)
             \<and> mset (?ranking category) = mset averages
             \<and> sorted_wrt (\<lambda>a b. ranked_value category b \<le> ranked_value category a)
                 (?ranking category)
             \<and> (\<forall>v. filter (\<lambda>x. ranked_value category x = v) (?ranking category) =
                     filter (\<lambda>x. ranked_value category x = v) averages)"
      by (simp add: mset_sorted_reverse sorted_sorted_reverse stable_sorted_reverse)
  qed
  moreover have "print_rankings averages top_amount =
             (concat (map (\<lambda>category. Header category #
                 map (\<lambda>x. Row (fst x) (ranked_value category x))
                   (slice_to top_amount (?ranking category)) @ [Blank])
                 audio_feature_names), None)"
    using print_categories_blocks [OF assms, of top_amount "[]"]
    by (simp add: print_rankings_def)
  ultimately show ?thesis
    by (intro exI [of _ ?ranking] conjI)
qed

theorem ranking_descending_stable_witness:
  "list_all (\<lambda>x. list_all (\<lambda>c. map_of (snd x) c \<noteq> None) audio_feature_names) xyz_averages \<and>
   sorted_playlists ''energy'' xyz_averages =
     Inr [xyz_averages ! 1, xyz_averages ! 2, xyz_averages ! 0] \<and>
   print_rankings xyz_averages 2 =
     ([Header ''danceability'', Row ''X'' (1/2), Row ''Y'' (1/2), Blank,
       Header ''energy'', Row ''Y'' (95/100), Row ''Z'' (95/100), Blank,
       Header ''loudness'', Row ''X'' (-5), Row ''Y'' (-5), Blank,
       Header ''speechiness'', Row ''X'' (1/8), Row ''Y'' (1/8), Blank,
       Header ''acousticness'', Row ''X'' 0, Row ''Y'' 0, Blank,
       Header ''instrumentalness'', Row ''X'' 0, Row ''Y'' 0, Blank,
       Header ''liveness'', Row ''X'' (1/4), Row ''Y'' (1/4), Blank,
       Header ''valence'', Row ''X'' (3/8), Row ''Y'' (3/8), Blank,
       Header ''tempo'', Row ''X'' 120, Row ''Y'' 120, Blank], None)"
proof -
  let ?expected = "\<lambda>c. if c = ''energy''
    then [xyz_averages ! 1, xyz_averages ! 2, xyz_averages ! 0] else xyz_averages"
  have h: "\<forall>x\<in>set xyz_averages. \<forall>c\<in>set audio_feature_names. map_of (snd x) c \<noteq> None"
    by code_simp
  have s: "\<forall>c\<in>set audio_feature_names. sorted_playlists c xyz_averages = Inr (?expected c)"
    by code_simp
  from ranking_descending_stable [OF h, of 2] obtain ranking where
    r: "\<forall>c\<in>set audio_feature_names. sorted_playlists c xyz_averages = Inr (ranking c)"
    and p: "print_rankings xyz_averages 2 =
             (concat (map (\<lambda>category. Header category #
                 map (\<lambda>x. Row (fst x) (ranked_value category x))
                   (slice_to 2 (ranking category)) @ [Blank])
                 audio_feature_names), None)"
    by blast
  from r s have "\<forall>c\<in>set audio_feature_names. ranking c = ?expected c"
    by simp
  then have "map (\<lambda>category. Header category #
                 map (\<lambda>x. Row (fst x) (ranked_value category x))
                   (slice_to 2 (ranking category)) @ [Blank]) audio_feature_names =
      map (\<lambda>category. Header category #
                 map (\<lambda>x. Row (fst x) (ranked_value category x))
                   (slice_to 2 (?expected category)) @ [Blank]) audio_feature_names"
    by (intro map_cong refl) simp
  with p have "print_rankings xyz_averages 2 =
             (concat (map (\<lambda>category. Header category #
                 map (\<lambda>x. Row (fst x) (ranked_value category x))
                   (slice_to 2 (?expected category)) @ [Blank])
                 audio_feature_names), None)"
    by simp
  also have "\<dots> = ([Header ''danceability'', Row ''X'' (1/2), Row ''Y'' (1/2), Blank,
       Header ''energy'', Row ''Y'' (95/100), Row ''Z'' (95/100), Blank,
       Header ''loudness'', Row ''X'' (-5), Row ''Y'' (-5), Blank,
       Header ''speechiness'', Row ''X'' (1/8), Row ''Y'' (1/8), Blank,
       Header ''acousticness'', Row ''X'' 0, Row ''Y'' 0, Blank,
       Header ''instrumentalness'', Row ''X'' 0, Row ''Y'' 0, Blank,
       Header ''liveness'', Row ''X'' (1/4), Row ''Y'' (1/4), Blank,
       Header ''valence'', Row ''X'' (3/8), Row ''Y'' (3/8), Blank,
       Header ''tempo'', Row ''X'' 120, Row ''Y'' 120, Blank], None)"
    by code_simp
  finally have o: "print_rankings xyz_averages 2 =
     ([Header ''danceability'', Row ''X'' (1/2), Row ''Y'' (1/2), Blank,
       Header ''energy'', Row ''Y'' (95/100), Row ''Z'' (95/100), Blank,
       Header ''loudness'', Row ''X'' (-5), Row ''Y'' (-5), Blank,
       Header ''speechiness'', Row ''X'' (1/8), Row ''Y'' (1/8), Blank,
       Header ''acousticness'', Row ''X'' 0, Row ''Y'' 0, Blank,
       Header ''instrumentalness'', Row ''X'' 0, Row ''Y'' 0, Blank,
       Header ''liveness'', Row ''X'' (1/4), Row ''Y'' (1/4), Blank,
       Header ''valence'', Row ''X'' (3/8), Row ''Y'' (3/8), Blank,
       Header ''tempo'', Row ''X'' 120, Row ''Y'' 120, Blank], None)" .
  have e: "sorted_playlists ''energy'' xyz_averages =
     Inr [xyz_averages ! 1, xyz_averages ! 2, xyz_averages ! 0]"
    using s by (simp add: audio_feature_names_def)
  from h have l: "list_all (\<lambda>x. list_all (\<lambda>c. map_of (snd x) c \<noteq> None) audio_feature_names)
      xyz_averages"
    by (simp only: list_all_iff)
  from l e o show ?thesis
    by (intro conjI)
qed

subsection \<open>The main program\<close>

lemma main_loop_append:
  "main_loop A sp (xs @ ys) paf calls =
     (case main_loop A sp xs paf calls of
        Some (Inr paf', calls') \<Rightarrow> main_loop A sp ys paf' calls'
      | r \<Rightarrow> r)"
  by (induction A sp xs paf calls rule: main_loop.induct)
     (auto split: option.splits sum.splits prod.splits)

text \<open>
  C3. When the averaging of a playlist fails, the playlists before it having been
  averaged, the program ends with the exception of that playlist and has printed
  nothing: no diagnostic and no ranking. Its log ends with the requests for the tracks
  and the features of that playlist: it makes no request for a playlist after it.
\<close>

theorem main_stops_at_first_failure:
  assumes "get_playlists sp False [] = Some (done @ (playlist, playlist_id) # remaining, calls)"
    and "main_loop A sp done [] calls = Some (Inr playlist_audio_features, calls1)"
    and "get_playlist_tracks sp playlist_id calls1 = Some (tracks, calls2)"
    and "average_audio_features A (fst (get_audio_features sp tracks calls2)) = Inl e"
  shows "main A sp =
           Some ([], Some e, calls2 @ map Audio_features (batches (track_ids tracks)))"
proof -
  let ?calls3 = "calls2 @ map Audio_features (batches (track_ids tracks))"
  from assms(3,4)
  have "main_loop A sp ((playlist, playlist_id) # remaining) playlist_audio_features calls1 =
      Some (Inl e, ?calls3)"
    by (simp add: get_audio_features_batches)
  with assms(2)
  have "main_loop A sp (done @ (playlist, playlist_id) # remaining) [] calls =
      Some (Inl e, ?calls3)"
    by (simp add: main_loop_append)
  with assms(1) show ?thesis
    by (simp add: main_def)
qed

theorem main_stops_at_first_failure_witness:
  "get_playlists missing_field_client False [] =
     Some ([(''Good'', ''idG'')] @ (''Broken'', ''idX'') # [(''Other'', ''idO'')],
           [Current_user_playlists]) \<and>
   main_loop exact_arith missing_field_client [(''Good'', ''idG'')] [] [Current_user_playlists] =
     Some (Inr [(''Good'',
                 [(''danceability'', 62/100), (''energy'', 94/100), (''loudness'', -11/2),
                  (''speechiness'', 12/100), (''acousticness'', 0),
                  (''instrumentalness'', 1/2), (''liveness'', 1/4), (''valence'', 1/2),
                  (''tempo'', 241/2)])],
           [Current_user_playlists, Playlist_items ''idG'',
            Audio_features [''t1'', ''t2'']]) \<and>
   get_playlist_tracks missing_field_client ''idX''
       [Current_user_playlists, Playlist_items ''idG'', Audio_features [''t1'', ''t2'']] =
     Some ([\<lparr>track_id = Some ''t9''\<rparr>],
           [Current_user_playlists, Playlist_items ''idG'', Audio_features [''t1'', ''t2''],
            Playlist_items ''idX'']) \<and>
   average_audio_features exact_arith
       (fst (get_audio_features missing_field_client [\<lparr>track_id = Some ''t9''\<rparr>]
          [Current_user_playlists, Playlist_items ''idG'', Audio_features [''t1'', ''t2''],
           Playlist_items ''idX''])) = Inl KeyError \<and>
   main exact_arith missing_field_client =
     Some ([], Some KeyError,
           [Current_user_playlists, Playlist_items ''idG'', Audio_features [''t1'', ''t2''],
            Playlist_items ''idX'', Audio_features [''t9'']])"
proof -
  have a: "get_playlists missing_field_client False [] =
     Some ([(''Good'', ''idG'')] @ (''Broken'', ''idX'') # [(''Other'', ''idO'')],
           [Current_user_playlists])"
    by code_simp
  have b: "main_loop exact_arith missing_field_client [(''Good'', ''idG'')] []
       [Current_user_playlists] =
     Some (Inr [(''Good'',
                 [(''danceability'', 62/100), (''energy'', 94/100), (''loudness'', -11/2),
                  (''speechiness'', 12/100), (''acousticness'', 0),
                  (''instrumentalness'', 1/2), (''liveness'', 1/4), (''valence'', 1/2),
                  (''tempo'', 241/2)])],
           [Current_user_playlists, Playlist_items ''idG'',
            Audio_features [''t1'', ''t2'']])"
    by code_simp
  have c: "get_playlist_tracks missing_field_client ''idX''
       [Current_user_playlists, Playlist_items ''idG'', Audio_features [''t1'', ''t2'']] =
     Some ([\<lparr>track_id = Some ''t9''\<rparr>],
           [Current_user_playlists, Playlist_items ''idG'', Audio_features [''t1'', ''t2''],
            Playlist_items ''idX''])"
    by code_simp
  have d: "average_audio_features exact_arith
       (fst (get_audio_features missing_field_client [\<lparr>track_id = Some ''t9''\<rparr>]
          [Current_user_playlists, Playlist_items ''idG'', Audio_features [''t1'', ''t2''],
           Playlist_items ''idX''])) = Inl KeyError"
    by code_simp
  have "batches [''t9''] = [[''t9'']]"
    by (simp add: batches_def)
  with main_stops_at_first_failure [OF a b c d]
  have m: "main exact_arith missing_field_client =
     Some ([], Some KeyError,
           [Current_user_playlists, Playlist_items ''idG'', Audio_features [''t1'', ''t2''],
            Playlist_items ''idX'', Audio_features [''t9'']])"
    by simp
  from a b c d m show ?thesis
    by (intro conjI)
qed

theorem main_does_not_continue_counterexample:
  "main exact_arith empty_first_client =
     Some ([], Some ZeroDivisionError, [Current_user_playlists, Playlist_items ''idE''])"
  by code_simp

end
